theory Spec2Isabelle
  imports Main "HOL-Library.Sublist" "HOL-Library.List_Lexorder"
begin

section \<open>Python values of the recipe catalog\<close>

text \<open>
  A Python \<open>str\<close> is a sequence of Unicode code points, so a string is a list of
  naturals: \<open>[97, 98]\<close> is \<open>"ab"\<close>. Lists are compared lexicographically by code
  point (\<open>List_Lexorder\<close>), which is the order \<open>sorted\<close> uses on strings.
\<close>

type_synonym ustr = "nat list"

text \<open>
  The values a cell of the \<open>tags\<close> column can hold: \<open>None\<close>, the float \<open>nan\<close>
  (what pandas stores in the cell of a record that has no \<open>tags\<close> key while another
  record has one), an integer, a string, or a list of such scalars.
\<close>

datatype atom = ANone | ANaN | AInt int | AStr ustr

datatype pyval = Atom atom | PList "atom list"

text \<open>
  Exceptions. \<open>LoadError\<close> is the error the specification names; no path of the
  source constructs it. The others are what the source and the library calls it makes
  can raise.
\<close>

datatype pyexn =
    KeyError string
  | TypeError
  | OSError
  | SyntaxError
  | NameError
  | LoadError string pyexn

text \<open>
  A catalog is a \<open>pandas.DataFrame\<close>. Only the \<open>tags\<close> column is interpreted; the
  rest of a row (its index label and its other columns) is the opaque payload \<open>'r\<close>.
  \<open>NoTags\<close> is a frame without a \<open>tags\<close> column (\<open>pd.DataFrame()\<close> is \<open>NoTags []\<close>),
  \<open>WithTags\<close> a frame with one.
\<close>

datatype 'r frame = NoTags "'r list" | WithTags "(pyval \<times> 'r) list"

text \<open>\<open>df.empty\<close>: no rows (a frame with rows has at least its payload columns).\<close>

fun frame_empty :: "'r frame \<Rightarrow> bool" where
  "frame_empty (NoTags rs) = (rs = [])"
| "frame_empty (WithTags rows) = (rows = [])"

text \<open>\<open>df['tags']\<close>: the column, or \<open>KeyError\<close> when the frame has no such column.\<close>

fun getitem_tags :: "'r frame \<Rightarrow> pyexn + pyval list" where
  "getitem_tags (NoTags rs) = Inl (KeyError ''tags'')"
| "getitem_tags (WithTags rows) = Inr (map fst rows)"

text \<open>\<open>df[mask]\<close> for a boolean series \<open>bs\<close> aligned with the rows: the rows marked \<open>True\<close>, in order.\<close>

fun select_rows :: "'r frame \<Rightarrow> bool list \<Rightarrow> 'r frame" where
  "select_rows (NoTags rs) bs = NoTags (map fst (filter snd (zip rs bs)))"
| "select_rows (WithTags rows) bs = WithTags (map fst (filter snd (zip rows bs)))"

section \<open>String primitives of the Python library\<close>

text \<open>\<open>sub in s\<close> for two strings: \<open>sub\<close> occurs in \<open>s\<close> as a contiguous block.\<close>

fun substring :: "ustr \<Rightarrow> ustr \<Rightarrow> bool" where
  "substring sub [] = (sub = [])"
| "substring sub (c # s) = (prefix sub (c # s) \<or> substring sub s)"

text \<open>
  \<open>str.isspace\<close> on one code point, as CPython's \<open>Py_UNICODE_ISSPACE\<close> has it:
  TAB..CR, FS..US, SPACE, NEL, NBSP, OGHAM SPACE MARK, EN QUAD..HAIR SPACE,
  LINE/PARAGRAPH SEPARATOR, NARROW NBSP, MEDIUM MATHEMATICAL SPACE, IDEOGRAPHIC SPACE.
\<close>

definition isspace :: "nat \<Rightarrow> bool" where
  "isspace c =
     ((9 \<le> c \<and> c \<le> 13) \<or> (28 \<le> c \<and> c \<le> 32) \<or> c = 133 \<or> c = 160 \<or> c = 5760
      \<or> (8192 \<le> c \<and> c \<le> 8202) \<or> c = 8232 \<or> c = 8233 \<or> c = 8239 \<or> c = 8287
      \<or> c = 12288)"

text \<open>\<open>s.strip()\<close>: leading and trailing whitespace removed.\<close>

definition strip :: "ustr \<Rightarrow> ustr" where
  "strip s = rev (dropWhile isspace (rev (dropWhile isspace s)))"

text \<open>
  The regular expression class \<open>\w\<close> on a \<open>str\<close> pattern: CPython's
  \<open>SRE_UNI_IS_WORD(ch)\<close> is \<open>Py_UNICODE_ISALNUM(ch) || ch == '_'\<close>. The Unicode
  table \<open>isalnum\<close> is a parameter of everything that splits.
\<close>

definition is_word :: "(nat \<Rightarrow> bool) \<Rightarrow> nat \<Rightarrow> bool" where
  "is_word isalnum c = (isalnum c \<or> c = 95)"

text \<open>
  \<open>re.split\<close> on the pattern \<open>P+\<close>, where \<open>P\<close> matches the characters that do not
  satisfy \<open>keep\<close>: the pieces between the maximal runs of such characters, among them
  an empty first piece when the string starts with a run and an empty last piece when
  it ends with one (\<open>re.split(r'\W+', ',a,,b,')\<close> is \<open>['', 'a', 'b', '']\<close>).
\<close>

function split_runs :: "(nat \<Rightarrow> bool) \<Rightarrow> ustr \<Rightarrow> ustr list" where
  "split_runs keep s =
     (let piece = takeWhile keep s; rest = dropWhile keep s
      in if rest = [] then [piece]
         else piece # split_runs keep (dropWhile (\<lambda>c. \<not> keep c) rest))"
  by pat_completeness auto
termination
proof (relation "measure (\<lambda>(keep, s). length s)")
  show "wf (measure (\<lambda>(keep, s). length s))" by simp
next
  fix keep :: "nat \<Rightarrow> bool" and s piece rest :: ustr
  assume r: "rest = dropWhile keep s" and ne: "rest \<noteq> []"
  from ne obtain c cs where rc: "rest = c # cs" by (cases rest) auto
  with r have "\<not> keep c" by (metis hd_dropWhile list.sel(1) list.distinct(1))
  then have "dropWhile (\<lambda>c. \<not> keep c) rest = dropWhile (\<lambda>c. \<not> keep c) cs"
    using rc by simp
  moreover have "length (dropWhile (\<lambda>c. \<not> keep c) cs) \<le> length cs"
    by (rule length_dropWhile_le)
  moreover have "length rest \<le> length s"
    using r by (simp add: length_dropWhile_le)
  ultimately show "((keep, dropWhile (\<lambda>c. \<not> keep c) rest), (keep, s))
      \<in> measure (\<lambda>(keep, s). length s)"
    using rc by simp
qed

declare split_runs.simps [simp del]

text \<open>\<open>re.split(r'\W+', item)\<close>.\<close>

definition re_split_W :: "(nat \<Rightarrow> bool) \<Rightarrow> ustr \<Rightarrow> ustr list" where
  "re_split_W isalnum s = split_runs (is_word isalnum) s"

text \<open>\<open>str(n)\<close> for an integer: decimal digits, with a minus sign when negative.\<close>

function digits :: "nat \<Rightarrow> ustr" where
  "digits n = (if n < 10 then [48 + n] else digits (n div 10) @ [48 + n mod 10])"
  by pat_completeness auto
termination
  by (relation "measure (\<lambda>n. n)") auto

declare digits.simps [simp del]

definition str_int :: "int \<Rightarrow> ustr" where
  "str_int i = (if i < 0 then 45 # digits (nat (- i)) else digits (nat i))"

text \<open>\<open>str(t)\<close> for a scalar: \<open>'None'\<close>, \<open>'nan'\<close>, the decimal numeral, the string itself.\<close>

fun str_atom :: "atom \<Rightarrow> ustr" where
  "str_atom ANone = [78, 111, 110, 101]"
| "str_atom ANaN = [110, 97, 110]"
| "str_atom (AInt i) = str_int i"
| "str_atom (AStr s) = s"

section \<open>queshi.py: resource lookup and loading\<close>

text \<open>
  The process environment the loader reads: \<open>sys.frozen\<close>, \<open>sys._MEIPASS\<close>,
  \<open>os.path.dirname(sys.executable)\<close>, \<open>os.path.dirname(__file__)\<close> (\<open>None\<close> when
  evaluating it raises), \<open>os.getcwd()\<close>, and the file system: an absolute path is
  absent (\<open>None\<close>), or present and unreadable as UTF-8 text (\<open>Some (Inl e)\<close>: a
  directory, no permission, bad encoding), or a text file (\<open>Some (Inr text)\<close>).
\<close>

record env =
  frozen :: bool
  meipass :: "string option"
  executable_dir :: string
  file_dir :: "string option"
  cwd :: string
  fs :: "string \<Rightarrow> (pyexn + string) option"

text \<open>\<open>os.path.isabs\<close> and \<open>os.path.join\<close> of two components (POSIX).\<close>

definition isabs :: "string \<Rightarrow> bool" where
  "isabs p = (case p of [] \<Rightarrow> False | c # _ \<Rightarrow> c = CHR ''/'')"

definition path_join :: "string \<Rightarrow> string \<Rightarrow> string" where
  "path_join a b =
     (if isabs b then b
      else if a = [] \<or> last a = CHR ''/'' then a @ b
      else a @ ''/'' @ b)"

text \<open>A relative path is resolved against the current working directory.\<close>

definition resolve :: "env \<Rightarrow> string \<Rightarrow> string" where
  "resolve e p = (if isabs p then p else path_join (cwd e) p)"

text \<open>\<open>os.path.exists\<close>.\<close>

definition path_exists :: "env \<Rightarrow> string \<Rightarrow> bool" where
  "path_exists e p = (if p = [] then False else fs e (resolve e p) \<noteq> None)"

text \<open>The list \<open>candidates\<close> that \<open>_find_resource\<close> builds before its loop.\<close>

definition truthy_dir :: "string option \<Rightarrow> string list" where
  "truthy_dir d = (case d of None \<Rightarrow> [] | Some s \<Rightarrow> if s = [] then [] else [s])"

definition candidates :: "env \<Rightarrow> string list" where
  "candidates e =
     (if frozen e then truthy_dir (meipass e) @ [executable_dir e] else [])
     @ truthy_dir (file_dir e)
     @ [cwd e]"

text \<open>The loop of \<open>_find_resource\<close>: the first candidate under which the name exists.\<close>

fun first_existing :: "env \<Rightarrow> string \<Rightarrow> string list \<Rightarrow> string option" where
  "first_existing e name [] = None"
| "first_existing e name (d # ds) =
     (if d = [] then first_existing e name ds
      else if path_exists e (path_join d name) then Some (path_join d name)
      else first_existing e name ds)"

definition find_resource :: "env \<Rightarrow> string \<Rightarrow> string option" where
  "find_resource e name = first_existing e name (candidates e)"

text \<open>
  Lines 55 to 60 of \<open>load_dishes\<close>: read the file, execute its text, and build the frame
  of what the text bound to \<open>dishes\<close>. Executing arbitrary Python is the parameter
  \<open>run\<close>: \<open>run text\<close> is \<open>Inl x\<close> when \<open>exec\<close> (or \<open>pd.DataFrame\<close> on the bound value)
  raises \<open>x\<close>, \<open>Inr None\<close> when the text binds no \<open>dishes\<close>, and \<open>Inr (Some f)\<close> when
  \<open>pd.DataFrame(dishes)\<close> is \<open>f\<close>. \<open>ns.get('dishes', [])\<close> turns the missing binding
  into the empty list, whose frame is \<open>pd.DataFrame()\<close>.
\<close>

definition read_and_exec ::
  "(string \<Rightarrow> pyexn + 'r frame option) \<Rightarrow> env \<Rightarrow> string \<Rightarrow> pyexn + 'r frame" where
  "read_and_exec run e path =
     (case fs e (resolve e path) of
        None \<Rightarrow> Inl OSError
      | Some (Inl x) \<Rightarrow> Inl x
      | Some (Inr content) \<Rightarrow>
          (case run content of
             Inl x \<Rightarrow> Inl x
           | Inr None \<Rightarrow> Inr (NoTags [])
           | Inr (Some f) \<Rightarrow> Inr f))"

definition load_dishes ::
  "(string \<Rightarrow> pyexn + 'r frame option) \<Rightarrow> env \<Rightarrow> pyexn + 'r frame" where
  "load_dishes run e =
     (case find_resource e ''dishes.txt'' of
        Some (c # cs) \<Rightarrow> read_and_exec run e (c # cs)
      | _ \<Rightarrow>
          (case file_dir e of
             None \<Rightarrow> Inr (NoTags [])
           | Some base_dir \<Rightarrow>
               (if path_exists e (path_join base_dir ''dishes.txt'')
                then read_and_exec run e (path_join base_dir ''dishes.txt'')
                else Inr (NoTags []))))"

section \<open>queshi.py: search by tag\<close>

text \<open>
  \<open>tag in tags\<close> for a string \<open>tag\<close>: substring containment when \<open>tags\<close> is a string,
  equality with an element when it is a list, and \<open>TypeError\<close> (argument is not
  iterable) for \<open>None\<close> and numbers.
\<close>

fun contains :: "ustr \<Rightarrow> pyval \<Rightarrow> pyexn + bool" where
  "contains tag (Atom (AStr s)) = Inr (substring tag s)"
| "contains tag (PList ts) = Inr (AStr tag \<in> set ts)"
| "contains tag (Atom a) = Inl TypeError"

text \<open>The inner function \<open>has_tag\<close>: any exception of the membership test is a non-match.\<close>

definition has_tag :: "ustr \<Rightarrow> pyval \<Rightarrow> bool" where
  "has_tag tag tags = (case contains tag tags of Inl x \<Rightarrow> False | Inr b \<Rightarrow> b)"

definition search_by_tag ::
  "(string \<Rightarrow> pyexn + 'r frame option) \<Rightarrow> env \<Rightarrow> ustr \<Rightarrow> 'r frame option
     \<Rightarrow> pyexn + 'r frame" where
  "search_by_tag run e tag checkpoint =
     (case (case checkpoint of None \<Rightarrow> load_dishes run e | Some f \<Rightarrow> Inr f) of
        Inl x \<Rightarrow> Inl x
      | Inr f \<Rightarrow>
          (case getitem_tags f of
             Inl x \<Rightarrow> Inl x
           | Inr col \<Rightarrow> Inr (select_rows f (map (has_tag tag) col))))"

section \<open>gui_queshi.py: the tag vocabulary and the suggestion popup\<close>

text \<open>
  One pass of the loop body of \<open>_update_tag_completer\<close> over a cell \<open>item\<close>, on the set
  \<open>tags_set\<close>: \<open>None\<close> is skipped; a string is split on \<open>\W+\<close> and each piece is
  stripped and added when non-empty; a list adds \<open>str(t)\<close> of each element; any
  other value is not iterable, so the \<open>for\<close> raises and the handler adds \<open>str(item)\<close>.
\<close>

fun add_item :: "(nat \<Rightarrow> bool) \<Rightarrow> pyval \<Rightarrow> ustr set \<Rightarrow> ustr set" where
  "add_item isalnum (Atom ANone) tags_set = tags_set"
| "add_item isalnum (Atom (AStr s)) tags_set =
     fold (\<lambda>p acc. if strip p = [] then acc else insert (strip p) acc)
       (re_split_W isalnum s) tags_set"
| "add_item isalnum (PList ts) tags_set = fold (\<lambda>t acc. insert (str_atom t) acc) ts tags_set"
| "add_item isalnum (Atom a) tags_set = insert (str_atom a) tags_set"

text \<open>The normalized tag set of one record: what its cell adds to an empty set.\<close>

definition normalized_tags :: "(nat \<Rightarrow> bool) \<Rightarrow> pyval \<Rightarrow> ustr set" where
  "normalized_tags isalnum item = add_item isalnum item {}"

text \<open>
  The list \<open>self._tag_list\<close> that \<open>_update_tag_completer\<close> computes from
  \<open>self.checkpoint\<close>: empty for no catalog or an empty one; empty when reading the
  column raises (the outer handler resets the set); otherwise the sorted set.
\<close>

definition update_tag_completer :: "(nat \<Rightarrow> bool) \<Rightarrow> 'r frame option \<Rightarrow> ustr list" where
  "update_tag_completer isalnum checkpoint =
     (case checkpoint of
        None \<Rightarrow> []
      | Some f \<Rightarrow>
          if frame_empty f then []
          else (case getitem_tags f of
                  Inl x \<Rightarrow> sorted_list_of_set {}
                | Inr items \<Rightarrow> sorted_list_of_set (fold (add_item isalnum) items {})))"

text \<open>\<open>(prefix or '')\<close>: \<open>None\<close> and the empty string both give the empty string.\<close>

definition or_empty :: "ustr option \<Rightarrow> ustr" where
  "or_empty x = (case x of None \<Rightarrow> [] | Some s \<Rightarrow> s)"

text \<open>
  The items \<open>_show_tag_popup\<close> puts into the popup for its argument \<open>prefix\<close> (\<open>None\<close>
  or a string; \<open>prefix_arg\<close> here), given \<open>self._tag_list\<close>: every entry when the
  stripped text is empty, otherwise the entries whose lower-case form contains the
  lower-case text. \<open>str.lower\<close> is the parameter \<open>lower\<close>.
\<close>

definition show_tag_popup :: "(ustr \<Rightarrow> ustr) \<Rightarrow> ustr list \<Rightarrow> ustr option \<Rightarrow> ustr list" where
  "show_tag_popup lower tag_list prefix_arg =
     (let p = strip (or_empty prefix_arg)
      in filter (\<lambda>t. p = [] \<or> substring (lower p) (lower t)) tag_list)"

section \<open>Fragments of the Unicode tables, for concrete inputs\<close>

text \<open>
  \<open>str.isalnum\<close> restricted to ASCII and the CJK unified ideographs U+4E00..U+9FA5,
  and \<open>str.lower\<close> restricted to strings of such characters. The general theorems
  below hold for every table; these fragments only instantiate them.
\<close>

definition cjk_alnum :: "nat \<Rightarrow> bool" where
  "cjk_alnum c =
     ((48 \<le> c \<and> c \<le> 57) \<or> (65 \<le> c \<and> c \<le> 90) \<or> (97 \<le> c \<and> c \<le> 122)
      \<or> (19968 \<le> c \<and> c \<le> 40869))"

definition ascii_lower :: "ustr \<Rightarrow> ustr" where
  "ascii_lower s = map (\<lambda>c. if 65 \<le> c \<and> c \<le> 90 then c + 32 else c) s"

section \<open>Predicates and concrete data used to state and instantiate the theorems\<close>

text \<open>A cell that is a list of strings, the shape the catalog's data file uses.\<close>

fun is_str :: "atom \<Rightarrow> bool" where
  "is_str (AStr s) = True"
| "is_str a = False"

fun str_list :: "pyval \<Rightarrow> bool" where
  "str_list (PList ts) = list_all is_str ts"
| "str_list (Atom a) = False"

text \<open>
  A four-row catalog: a list of two tags written as code points,
  \<open>[[36771], [19979, 39277]]\<close>, \<open>None\<close>, \<open>[[23478, 24120]]\<close>, and the string
  \<open>[36771, 44, 19979, 39277]\<close> (the two tags joined by a comma). The payload is the
  row's index label.
\<close>

definition demo_rows :: "(pyval \<times> nat) list" where
  "demo_rows =
     [(PList [AStr [36771], AStr [19979, 39277]], 0),
      (Atom ANone, 1),
      (PList [AStr [23478, 24120]], 2),
      (Atom (AStr [36771, 44, 19979, 39277]), 3)]"

text \<open>An environment run from source in \<open>/app\<close> with no data file anywhere.\<close>

definition empty_env :: env where
  "empty_env =
     \<lparr>frozen = False, meipass = None, executable_dir = ''/usr/bin'',
      file_dir = Some ''/app'', cwd = ''/home/u'', fs = (\<lambda>p. None)\<rparr>"

text \<open>An interpreter on which every text fails to parse.\<close>

definition no_run :: "string \<Rightarrow> pyexn + nat frame option" where
  "no_run content = Inl SyntaxError"

text \<open>A token is trimmed: non-empty, with no whitespace at either end.\<close>

definition trimmed :: "ustr \<Rightarrow> bool" where
  "trimmed t = (t \<noteq> [] \<and> \<not> isspace (hd t) \<and> \<not> isspace (last t))"

text \<open>The cells of the \<open>tags\<close> column, none when the frame has no such column.\<close>

fun cells :: "'r frame \<Rightarrow> pyval list" where
  "cells (NoTags rs) = []"
| "cells (WithTags rows) = map fst rows"

text \<open>
  The vocabulary as claim C2 words it, for comparison with the code: a string is split
  on every run of non-alphanumeric characters (the tokens are the non-empty pieces), a
  sequence gives the string of each element, and the sorted union is returned.
\<close>

definition spec_tokens :: "(nat \<Rightarrow> bool) \<Rightarrow> pyval \<Rightarrow> ustr set" where
  "spec_tokens isalnum item =
     (case item of
        Atom (AStr s) \<Rightarrow> set (filter (\<lambda>p. p \<noteq> []) (split_runs isalnum s))
      | PList ts \<Rightarrow> str_atom ` set ts
      | Atom a \<Rightarrow> {})"

definition spec_buildVocabulary :: "(nat \<Rightarrow> bool) \<Rightarrow> pyval list \<Rightarrow> ustr list" where
  "spec_buildVocabulary isalnum items =
     sorted_list_of_set (\<Union> (spec_tokens isalnum ` set items))"

text \<open>The test of the loop of \<open>_find_resource\<close> on one candidate directory.\<close>

definition usable_dir :: "env \<Rightarrow> string \<Rightarrow> string \<Rightarrow> bool" where
  "usable_dir e name d = (d \<noteq> [] \<and> path_exists e (path_join d name))"

text \<open>
  A bundled program: the data file lies beside the executable and in the working
  directory, not in the extraction directory.
\<close>

definition bundled_env :: env where
  "bundled_env =
     \<lparr>frozen = True, meipass = Some ''/tmp/_MEI42'', executable_dir = ''/opt/queshi'',
      file_dir = Some ''/tmp/_MEI42'', cwd = ''/home/u'',
      fs = (\<lambda>p. if p = ''/opt/queshi/dishes.txt'' \<or> p = ''/home/u/dishes.txt''
                 then Some (Inr ''dishes = []'') else None)\<rparr>"

text \<open>
  A program run from source in \<open>/app\<close> whose data file is there, with the text
  \<open>demo_text\<close>; \<open>run_demo\<close> is an interpreter that knows this one text, whose
  \<open>dishes\<close> make the frame of \<open>demo_rows\<close>, and fails to parse any other.
\<close>

definition demo_text :: string where
  "demo_text = ''dishes = [...]''"

definition demo_env :: env where
  "demo_env =
     \<lparr>frozen = False, meipass = None, executable_dir = ''/usr/bin'',
      file_dir = Some ''/app'', cwd = ''/home/u'',
      fs = (\<lambda>p. if p = ''/app/dishes.txt'' then Some (Inr demo_text) else None)\<rparr>"

definition run_demo :: "string \<Rightarrow> pyexn + nat frame option" where
  "run_demo content =
     (if content = demo_text then Inr (Some (WithTags demo_rows)) else Inl SyntaxError)"

text \<open>The same layout with a data file cut off in the middle of the list.\<close>

definition broken_env :: env where
  "broken_env =
     \<lparr>frozen = False, meipass = None, executable_dir = ''/usr/bin'',
      file_dir = Some ''/app'', cwd = ''/home/u'',
      fs = (\<lambda>p. if p = ''/app/dishes.txt'' then Some (Inr ''dishes = ['') else None)\<rparr>"

section \<open>Library facts about the primitives\<close>

lemma substring_iff_sublist: "substring sub s \<longleftrightarrow> sublist sub s"
  by (induction s) (auto simp: sublist_Cons_right)

lemma is_strE: "is_str t \<Longrightarrow> \<exists>s. t = AStr s"
  by (cases t) simp_all

section \<open>Search by tag\<close>

lemma select_rows_has_tag:
  "select_rows (WithTags rows) (map (has_tag tag) (map fst rows))
     = WithTags (filter (\<lambda>r. has_tag tag (fst r)) rows)"
proof -
  have "map fst (filter snd (zip rows (map (has_tag tag) (map fst rows))))
          = filter (\<lambda>r. has_tag tag (fst r)) rows"
    by (induction rows) auto
  then show ?thesis by simp
qed

lemma search_by_tag_WithTags:
  "search_by_tag run e tag (Some (WithTags rows))
     = Inr (WithTags (filter (\<lambda>r. has_tag tag (fst r)) rows))"
  unfolding search_by_tag_def using select_rows_has_tag [of rows tag] by simp

lemma search_by_tag_NoTags:
  "search_by_tag run e tag (Some (NoTags rs)) = Inl (KeyError ''tags'')"
  unfolding search_by_tag_def by simp

lemma fold_insert_strip:
  "fold (\<lambda>p acc. if strip p = [] then acc else insert (strip p) acc) ps S
     = S \<union> {strip p |p. p \<in> set ps \<and> strip p \<noteq> []}"
  by (induction ps arbitrary: S) auto

lemma fold_insert_str:
  "fold (\<lambda>t acc. insert (str_atom t) acc) ts S = S \<union> str_atom ` set ts"
  by (induction ts arbitrary: S) auto

lemma add_item_union: "add_item w item S = S \<union> normalized_tags w item"
  unfolding normalized_tags_def
  by (cases "(w, item, S)" rule: add_item.cases)
     (simp_all add: fold_insert_strip fold_insert_str)

lemma normalized_tags_None: "normalized_tags w (Atom ANone) = {}"
  by (simp add: normalized_tags_def)

lemma normalized_tags_str:
  "normalized_tags w (Atom (AStr s))
     = {strip p |p. p \<in> set (re_split_W w s) \<and> strip p \<noteq> []}"
  by (simp add: normalized_tags_def fold_insert_strip)

lemma normalized_tags_list: "normalized_tags w (PList ts) = str_atom ` set ts"
  by (simp add: normalized_tags_def fold_insert_str)

lemma normalized_tags_scalar:
  "a \<noteq> ANone \<Longrightarrow> (\<forall>s. a \<noteq> AStr s) \<Longrightarrow> normalized_tags w (Atom a) = {str_atom a}"
  by (cases a) (simp_all add: normalized_tags_def)

lemma has_tag_str_list:
  "str_list v \<Longrightarrow> has_tag tag v \<longleftrightarrow> tag \<in> normalized_tags w v"
proof (cases v)
  case (Atom a)
  assume "str_list v" with Atom show ?thesis by simp
next
  case (PList ts)
  assume "str_list v"
  with PList have all: "\<forall>t\<in>set ts. \<exists>s. t = AStr s"
    by (auto simp: list_all_iff dest: is_strE)
  have "AStr tag \<in> set ts \<longleftrightarrow> tag \<in> str_atom ` set ts"
  proof
    assume "AStr tag \<in> set ts"
    then show "tag \<in> str_atom ` set ts" by force
  next
    assume "tag \<in> str_atom ` set ts"
    then obtain t where t: "t \<in> set ts" "tag = str_atom t" by auto
    with all obtain s where "t = AStr s" by auto
    with t show "AStr tag \<in> set ts" by simp
  qed
  with PList show ?thesis
    by (simp add: has_tag_def normalized_tags_list)
qed

lemma has_tag_None: "\<not> has_tag tag (Atom ANone)"
  by (simp add: has_tag_def)

lemma has_tag_string: "has_tag tag (Atom (AStr s)) \<longleftrightarrow> sublist tag s"
  by (simp add: has_tag_def substring_iff_sublist)

text \<open>
  C1, as the code has it. For every catalog with a \<open>tags\<close> column and every tag,
  \<open>search_by_tag\<close> returns, in catalog order and as a subsequence of the catalog,
  exactly the records whose cell passes Python's membership test \<open>tag in tags\<close>. For
  a record whose cell is a list of strings (or \<open>None\<close>) the test holds exactly when
  the record's normalized tag set contains the tag, so such a record is in the result
  if and only if its normalized tags contain the tag as an exact member. For a
  string-valued cell the test is substring containment.
\<close>

theorem search_by_tag_membership:
  "search_by_tag run e tag (Some (WithTags rows))
       = Inr (WithTags (filter (\<lambda>r. has_tag tag (fst r)) rows))
   \<and> subseq (filter (\<lambda>r. has_tag tag (fst r)) rows) rows
   \<and> (\<forall>r\<in>set rows. str_list (fst r) \<or> fst r = Atom ANone \<longrightarrow>
         (has_tag tag (fst r) \<longleftrightarrow> tag \<in> normalized_tags isalnum (fst r)))
   \<and> (\<forall>r\<in>set rows. \<forall>s. fst r = Atom (AStr s) \<longrightarrow>
         (has_tag tag (fst r) \<longleftrightarrow> sublist tag s))"
proof -
  have a: "search_by_tag run e tag (Some (WithTags rows))
       = Inr (WithTags (filter (\<lambda>r. has_tag tag (fst r)) rows))"
    by (rule search_by_tag_WithTags)
  have b: "subseq (filter (\<lambda>r. has_tag tag (fst r)) rows) rows" by simp
  have c: "has_tag tag v \<longleftrightarrow> tag \<in> normalized_tags isalnum v"
    if "str_list v \<or> v = Atom ANone" for v
    using that has_tag_str_list [of v tag isalnum]
    by (auto simp: has_tag_None normalized_tags_None)
  have d: "\<forall>r\<in>set rows. \<forall>s. fst r = Atom (AStr s) \<longrightarrow>
         (has_tag tag (fst r) \<longleftrightarrow> sublist tag s)"
    by (simp add: has_tag_string)
  from a b c d show ?thesis by blast
qed

theorem search_by_tag_membership_witness:
  "search_by_tag no_run empty_env [36771] (Some (WithTags demo_rows))
       = Inr (WithTags [(PList [AStr [36771], AStr [19979, 39277]], 0),
                        (Atom (AStr [36771, 44, 19979, 39277]), 3)])
   \<and> str_list (PList [AStr [36771], AStr [19979, 39277]])
   \<and> [36771] \<in> normalized_tags cjk_alnum (PList [AStr [36771], AStr [19979, 39277]])
   \<and> [36771] \<notin> normalized_tags cjk_alnum (PList [AStr [23478, 24120]])
   \<and> sublist [36771] [36771, 44, 19979, 39277]"
  using search_by_tag_membership [of no_run empty_env "[36771]" demo_rows cjk_alnum]
  by (simp add: demo_rows_def has_tag_def normalized_tags_list
      substring_iff_sublist [symmetric])

text \<open>
  C1 as stated fails on a string-valued cell: the tag \<open>"b"\<close> (\<open>[98]\<close>) is no member
  of the normalized tag set \<open>{"ab", "cd"}\<close> of the cell \<open>"ab,cd"\<close>, yet the record is
  returned, because \<open>"b" in "ab,cd"\<close> is true.
\<close>

theorem search_by_tag_substring_counterexample:
  "search_by_tag no_run empty_env [98] (Some (WithTags [(Atom (AStr [97, 98, 44, 99, 100]), 0)]))
       = Inr (WithTags [(Atom (AStr [97, 98, 44, 99, 100]), 0)])
   \<and> normalized_tags cjk_alnum (Atom (AStr [97, 98, 44, 99, 100])) = {[97, 98], [99, 100]}
   \<and> [98] \<notin> normalized_tags cjk_alnum (Atom (AStr [97, 98, 44, 99, 100]))"
proof -
  have sp: "re_split_W cjk_alnum [97, 98, 44, 99, 100] = [[97, 98], [99, 100]]"
    by (simp add: re_split_W_def split_runs.simps is_word_def cjk_alnum_def)
  have st: "strip [97, 98] = [97, 98]" "strip [99, 100] = [99, 100]"
    by (simp_all add: strip_def isspace_def)
  have n: "normalized_tags cjk_alnum (Atom (AStr [97, 98, 44, 99, 100])) = {[97, 98], [99, 100]}"
    by (auto simp: normalized_tags_def sp st)
  have s: "search_by_tag no_run empty_env [98] (Some (WithTags [(Atom (AStr [97, 98, 44, 99, 100]), 0)]))
       = Inr (WithTags [(Atom (AStr [97, 98, 44, 99, 100]), 0)])"
    by (simp add: search_by_tag_WithTags has_tag_def)
  from n s show ?thesis by simp
qed

section \<open>The tag vocabulary\<close>

lemma last_dropWhile_nonempty:
  "dropWhile P xs \<noteq> [] \<Longrightarrow> last (dropWhile P xs) = last xs"
  by (induction xs) (auto split: if_splits)

lemma strip_trimmed: "strip s \<noteq> [] \<Longrightarrow> trimmed (strip s)"
proof -
  assume ne: "strip s \<noteq> []"
  define ys where "ys = dropWhile isspace s"
  define zs where "zs = dropWhile isspace (rev ys)"
  have st: "strip s = rev zs" by (simp add: strip_def ys_def zs_def)
  with ne have zne: "zs \<noteq> []" by simp
  then have yne: "ys \<noteq> []" by (auto simp: zs_def)
  have "\<not> isspace (hd zs)" using zne unfolding zs_def by (rule hd_dropWhile)
  then have l: "\<not> isspace (last (rev zs))" using zne by (simp add: last_rev)
  have "last zs = last (rev ys)" using zne unfolding zs_def by (rule last_dropWhile_nonempty)
  also have "\<dots> = hd ys" using yne by (simp add: last_rev)
  finally have "hd (rev zs) = hd ys" using zne by (simp add: hd_rev)
  moreover have "\<not> isspace (hd ys)" using yne unfolding ys_def by (rule hd_dropWhile)
  ultimately show ?thesis using l ne st by (simp add: trimmed_def)
qed

lemma finite_normalized_tags: "finite (normalized_tags w item)"
proof (cases item)
  case (Atom a)
  show ?thesis
  proof (cases a)
    case (AStr s)
    have "{strip p |p. p \<in> set (re_split_W w s) \<and> strip p \<noteq> []}
            \<subseteq> strip ` set (re_split_W w s)" by auto
    then have "finite {strip p |p. p \<in> set (re_split_W w s) \<and> strip p \<noteq> []}"
      by (rule finite_subset) simp
    with Atom AStr show ?thesis by (simp add: normalized_tags_str)
  qed (simp_all add: Atom normalized_tags_def)
next
  case (PList ts)
  then show ?thesis by (simp add: normalized_tags_list)
qed

lemma fold_add_item:
  "fold (add_item w) items S = S \<union> (\<Union>v\<in>set items. normalized_tags w v)"
proof (induction items arbitrary: S)
  case Nil
  show ?case by simp
next
  case (Cons v items)
  have "fold (add_item w) (v # items) S = fold (add_item w) items (add_item w v S)"
    by simp
  also have "\<dots> = add_item w v S \<union> (\<Union>v\<in>set items. normalized_tags w v)"
    by (rule Cons.IH)
  also have "\<dots> = S \<union> (\<Union>v\<in>set (v # items). normalized_tags w v)"
    by (auto simp: add_item_union)
  finally show ?case .
qed

lemma vocabulary_set_union:
  "update_tag_completer w (Some f)
     = sorted_list_of_set (\<Union>v\<in>set (cells f). normalized_tags w v)"
proof (cases f)
  case (NoTags rs)
  then show ?thesis by (simp add: update_tag_completer_def)
next
  case (WithTags rows)
  have "fold (add_item w) (map fst rows) {} = (\<Union>v\<in>set (map fst rows). normalized_tags w v)"
    using fold_add_item [of w "map fst rows" "{}"] by simp
  with WithTags show ?thesis
    by (cases rows) (simp_all add: update_tag_completer_def)
qed

lemma finite_vocabulary_set: "finite (\<Union>v\<in>set items. normalized_tags w v)"
  by (simp add: finite_normalized_tags)

lemma set_vocabulary:
  "set (update_tag_completer w (Some f)) = (\<Union>v\<in>set (cells f). normalized_tags w v)"
  by (simp add: vocabulary_set_union finite_normalized_tags)

lemma sorted_vocabulary: "sorted (update_tag_completer w cp)"
  by (cases cp) (simp_all add: vocabulary_set_union, simp add: update_tag_completer_def)

lemma distinct_vocabulary: "distinct (update_tag_completer w cp)"
  by (cases cp) (simp_all add: vocabulary_set_union, simp add: update_tag_completer_def)

lemma sorted_list_of_set_eqI:
  "sorted xs \<Longrightarrow> distinct xs \<Longrightarrow> S = set xs \<Longrightarrow> sorted_list_of_set S = xs"
  by (simp add: sorted_list_of_set.idem_if_sorted_distinct)

lemma split_runs_last:
  "dropWhile keep s = [] \<Longrightarrow> split_runs keep s = [takeWhile keep s]"
  by (subst split_runs.simps) (simp only: Let_def refl if_True)

lemma split_runs_more:
  "dropWhile keep s \<noteq> [] \<Longrightarrow>
     split_runs keep s
       = takeWhile keep s # split_runs keep (dropWhile (\<lambda>c. \<not> keep c) (dropWhile keep s))"
  by (subst split_runs.simps) (simp only: Let_def if_False)

lemma split_runs_pieces: "p \<in> set (split_runs keep s) \<Longrightarrow> \<forall>c\<in>set p. keep c"
proof (induction keep s rule: split_runs.induct)
  case (1 keep s)
  show ?case
  proof (cases "dropWhile keep s = []")
    case True
    from "1.prems" have "p = takeWhile keep s"
      unfolding split_runs_last [OF True] by simp
    then show ?thesis by (auto dest: set_takeWhileD)
  next
    case False
    from "1.prems" have "p = takeWhile keep s
        \<or> p \<in> set (split_runs keep (dropWhile (\<lambda>c. \<not> keep c) (dropWhile keep s)))"
      unfolding split_runs_more [OF False] by simp
    then show ?thesis
    proof
      assume "p = takeWhile keep s"
      then show ?thesis by (auto dest: set_takeWhileD)
    next
      assume "p \<in> set (split_runs keep (dropWhile (\<lambda>c. \<not> keep c) (dropWhile keep s)))"
      with "1.IH" [OF refl refl False] show ?thesis by blast
    qed
  qed
qed

lemma filter_dropWhile_not:
  "filter keep (dropWhile (\<lambda>c. \<not> keep c) xs) = filter keep xs"
  by (induction xs) auto

lemma filter_takeWhile_dropWhile:
  "filter keep xs = takeWhile keep xs @ filter keep (dropWhile keep xs)"
  by (induction xs) auto

lemma concat_split_runs: "concat (split_runs keep s) = filter keep s"
proof (induction keep s rule: split_runs.induct)
  case (1 keep s)
  show ?case
  proof (cases "dropWhile keep s = []")
    case True
    have "concat (split_runs keep s) = takeWhile keep s"
      by (simp only: split_runs_last [OF True]) simp
    also have "\<dots> = filter keep s"
      using True filter_takeWhile_dropWhile [of keep s] by (simp only: filter.simps append_Nil2)
    finally show ?thesis .
  next
    case False
    have "concat (split_runs keep s)
            = takeWhile keep s
              @ concat (split_runs keep (dropWhile (\<lambda>c. \<not> keep c) (dropWhile keep s)))"
      by (simp only: split_runs_more [OF False]) simp
    also have "\<dots> = takeWhile keep s
              @ filter keep (dropWhile (\<lambda>c. \<not> keep c) (dropWhile keep s))"
      using "1.IH" [OF refl refl False] by simp
    also have "\<dots> = takeWhile keep s @ filter keep (dropWhile keep s)"
      by (simp only: filter_dropWhile_not)
    also have "\<dots> = filter keep s"
      by (rule filter_takeWhile_dropWhile [symmetric])
    finally show ?thesis .
  qed
qed


lemma split_runs_cong:
  "(\<forall>c\<in>set s. P c = Q c) \<Longrightarrow> split_runs P s = split_runs Q s"
proof (induction P s rule: split_runs.induct)
  case (1 P s)
  have t: "takeWhile P s = takeWhile Q s" using "1.prems" by (auto intro: takeWhile_cong)
  have d: "dropWhile P s = dropWhile Q s" using "1.prems" by (auto intro: dropWhile_cong)
  show ?case
  proof (cases "dropWhile P s = []")
    case True
    then show ?thesis using t d by (simp add: split_runs_last)
  next
    case False
    have sub: "\<forall>c\<in>set (dropWhile P s). P c = Q c"
      using "1.prems" by (auto dest: set_dropWhileD)
    then have d2: "dropWhile (\<lambda>c. \<not> P c) (dropWhile P s) = dropWhile (\<lambda>c. \<not> Q c) (dropWhile P s)"
      by (auto intro: dropWhile_cong)
    have "\<forall>c\<in>set (dropWhile (\<lambda>c. \<not> P c) (dropWhile P s)). P c = Q c"
      using sub by (auto dest: set_dropWhileD)
    from "1.IH" [OF refl refl False this]
    have "split_runs P (dropWhile (\<lambda>c. \<not> P c) (dropWhile P s))
            = split_runs Q (dropWhile (\<lambda>c. \<not> P c) (dropWhile P s))" .
    with False t d d2 show ?thesis
      by (simp add: split_runs_more)
  qed
qed

lemma split_runs_no_underscore:
  "(\<forall>c\<in>set s. c \<noteq> 95) \<Longrightarrow> split_runs (is_word w) s = split_runs w s"
  by (rule split_runs_cong) (simp add: is_word_def)

lemma strip_id: "p \<noteq> [] \<Longrightarrow> \<not> isspace (hd p) \<Longrightarrow> \<not> isspace (last p) \<Longrightarrow> strip p = p"
proof -
  assume ne: "p \<noteq> []" and h: "\<not> isspace (hd p)" and l: "\<not> isspace (last p)"
  from ne h have a: "dropWhile isspace p = p" by (simp add: dropWhile_eq_self_iff)
  from ne l have "dropWhile isspace (rev p) = rev p"
    by (simp add: dropWhile_eq_self_iff hd_rev)
  with a show ?thesis by (simp add: strip_def)
qed

lemma strip_word_piece:
  assumes sp: "\<forall>c. isspace c \<longrightarrow> \<not> w c" and p: "p \<in> set (split_runs (is_word w) s)"
  shows "strip p = p"
proof (cases "p = []")
  case True
  then show ?thesis by (simp add: strip_def)
next
  case False
  have all: "\<forall>c\<in>set p. is_word w c" using p by (rule split_runs_pieces)
  have u: "\<not> isspace 95" by (simp add: isspace_def)
  have ns: "\<not> isspace c" if "is_word w c" for c
    using that sp u by (auto simp: is_word_def)
  from False all have "is_word w (hd p)" "is_word w (last p)" by simp_all
  then show ?thesis using False by (simp add: strip_id ns)
qed

lemma normalized_tags_str_pieces:
  assumes sp: "\<forall>c. isspace c \<longrightarrow> \<not> w c"
  shows "normalized_tags w (Atom (AStr s)) = {p \<in> set (split_runs (is_word w) s). p \<noteq> []}"
  using strip_word_piece [OF sp]
  by (auto simp: normalized_tags_str re_split_W_def) metis

lemma normalized_tags_str_trimmed: "\<forall>t\<in>normalized_tags w (Atom (AStr s)). trimmed t"
  by (auto simp: normalized_tags_str intro: strip_trimmed)

lemma demo_split:
  "w 36771 \<Longrightarrow> w 19979 \<Longrightarrow> w 39277 \<Longrightarrow> \<not> w 44 \<Longrightarrow>
     re_split_W w [36771, 44, 19979, 39277] = [[36771], [19979, 39277]]"
  by (simp add: re_split_W_def split_runs.simps is_word_def)

lemma demo_strip: "strip [36771] = [36771]" "strip [19979, 39277] = [19979, 39277]"
  by (simp_all add: strip_def isspace_def)

lemma demo_normalized:
  "w 36771 \<Longrightarrow> w 19979 \<Longrightarrow> w 39277 \<Longrightarrow> \<not> w 44 \<Longrightarrow>
     normalized_tags w (Atom (AStr [36771, 44, 19979, 39277])) = {[36771], [19979, 39277]}"
  by (auto simp: normalized_tags_def demo_split demo_strip)

lemma demo_vocabulary:
  assumes "w 36771" "w 19979" "w 39277" "\<not> w 44"
  shows "update_tag_completer w
       (Some (WithTags [(Atom (AStr [36771, 44, 19979, 39277]), r1),
                        (PList [AStr [19979, 39277], AStr [23478, 24120]], r2)]))
     = [[19979, 39277], [23478, 24120], [36771]]"
  unfolding vocabulary_set_union
  by (rule sorted_list_of_set_eqI)
     (auto simp: demo_normalized [OF assms] normalized_tags_list)

text \<open>
  C2, as the code has it. The vocabulary is the sorted (code point order), duplicate-free
  list of the union over all cells of the normalized tokens. A string cell is split
  on every run of non-word characters, a word character being an alphanumeric or the
  underscore: each piece is stripped and kept when non-empty; the pieces hold word
  characters only and together hold all of them in order; when no whitespace is
  alphanumeric the tokens are exactly the non-empty pieces, and on a string without
  underscores the split is the split on non-alphanumeric runs. A list cell gives the
  string of each element. The two-record catalog of the claim yields the three tags.
\<close>

theorem vocabulary_sorted_union:
  "sorted (update_tag_completer w (Some f))
   \<and> distinct (update_tag_completer w (Some f))
   \<and> set (update_tag_completer w (Some f)) = (\<Union>v\<in>set (cells f). normalized_tags w v)
   \<and> normalized_tags w (Atom (AStr s))
       = {strip p |p. p \<in> set (split_runs (is_word w) s) \<and> strip p \<noteq> []}
   \<and> ((\<forall>c. isspace c \<longrightarrow> \<not> w c) \<longrightarrow>
        normalized_tags w (Atom (AStr s)) = {p \<in> set (split_runs (is_word w) s). p \<noteq> []})
   \<and> (\<forall>p\<in>set (split_runs (is_word w) s). \<forall>c\<in>set p. w c \<or> c = 95)
   \<and> concat (split_runs (is_word w) s) = filter (is_word w) s
   \<and> ((\<forall>c\<in>set s. c \<noteq> 95) \<longrightarrow> split_runs (is_word w) s = split_runs w s)
   \<and> normalized_tags w (PList ts) = str_atom ` set ts
   \<and> (w 36771 \<and> w 19979 \<and> w 39277 \<and> \<not> w 44 \<longrightarrow>
        update_tag_completer w
          (Some (WithTags [(Atom (AStr [36771, 44, 19979, 39277]), r1),
                           (PList [AStr [19979, 39277], AStr [23478, 24120]], r2)]))
        = [[19979, 39277], [23478, 24120], [36771]])"
proof -
  have pieces: "\<forall>p\<in>set (split_runs (is_word w) s). \<forall>c\<in>set p. w c \<or> c = 95"
    using split_runs_pieces [of _ "is_word w" s] by (simp add: is_word_def)
  have str: "normalized_tags w (Atom (AStr s))
       = {strip p |p. p \<in> set (split_runs (is_word w) s) \<and> strip p \<noteq> []}"
    by (simp add: normalized_tags_str re_split_W_def)
  show ?thesis
    using sorted_vocabulary [of w "Some f"] distinct_vocabulary [of w "Some f"]
      set_vocabulary [of w f] str normalized_tags_str_pieces [of w s] pieces
      concat_split_runs [of "is_word w" s] split_runs_no_underscore [of s w]
      normalized_tags_list [of w ts] demo_vocabulary [of w r1 r2]
    by blast
qed

theorem vocabulary_sorted_union_witness:
  "update_tag_completer cjk_alnum
       (Some (WithTags [(Atom (AStr [36771, 44, 19979, 39277]), 0 :: nat),
                        (PList [AStr [19979, 39277], AStr [23478, 24120]], 1)]))
     = [[19979, 39277], [23478, 24120], [36771]]
   \<and> cjk_alnum 36771 \<and> cjk_alnum 19979 \<and> cjk_alnum 39277 \<and> \<not> cjk_alnum 44
   \<and> normalized_tags cjk_alnum (Atom (AStr [36771, 44, 19979, 39277]))
       = {p \<in> set (split_runs (is_word cjk_alnum) [36771, 44, 19979, 39277]). p \<noteq> []}
   \<and> split_runs (is_word cjk_alnum) [36771, 44, 19979, 39277]
       = split_runs cjk_alnum [36771, 44, 19979, 39277]"
proof -
  have sp: "\<forall>c. isspace c \<longrightarrow> \<not> cjk_alnum c"
    by (simp add: isspace_def cjk_alnum_def)
  have a: "cjk_alnum 36771 \<and> cjk_alnum 19979 \<and> cjk_alnum 39277 \<and> \<not> cjk_alnum 44"
    by (simp add: cjk_alnum_def)
  have u: "\<forall>c\<in>set [36771, 44, 19979, 39277 :: nat]. c \<noteq> 95" by simp
  show ?thesis
    using vocabulary_sorted_union [of cjk_alnum "WithTags []" "[36771, 44, 19979, 39277]" "[]" "0::nat" 1]
      sp a u
    by blast
qed

text \<open>
  C2 as stated fails on a string with an underscore, which is not alphanumeric but is a
  word character: the cell \<open>"a_b"\<close> gives the single token \<open>"a_b"\<close>, where a split
  on non-alphanumeric runs gives \<open>"a"\<close> and \<open>"b"\<close>.
\<close>

theorem vocabulary_underscore_counterexample:
  "update_tag_completer cjk_alnum (Some (WithTags [(Atom (AStr [97, 95, 98]), 0 :: nat)]))
     = [[97, 95, 98]]
   \<and> spec_buildVocabulary cjk_alnum [Atom (AStr [97, 95, 98])] = [[97], [98]]"
proof -
  have c: "re_split_W cjk_alnum [97, 95, 98] = [[97, 95, 98]]"
    by (simp add: re_split_W_def split_runs.simps is_word_def cjk_alnum_def)
  have st: "strip [97, 95, 98] = [97, 95, 98]" by (simp add: strip_def isspace_def)
  have n: "normalized_tags cjk_alnum (Atom (AStr [97, 95, 98])) = {[97, 95, 98]}"
    by (auto simp: normalized_tags_def c st)
  have code: "update_tag_completer cjk_alnum (Some (WithTags [(Atom (AStr [97, 95, 98]), 0 :: nat)]))
     = [[97, 95, 98]]"
    unfolding vocabulary_set_union by (rule sorted_list_of_set_eqI) (simp_all add: n)
  have s: "split_runs cjk_alnum [97, 95, 98] = [[97], [98]]"
    by (simp add: split_runs.simps cjk_alnum_def)
  have spec: "spec_buildVocabulary cjk_alnum [Atom (AStr [97, 95, 98])] = [[97], [98]]"
    unfolding spec_buildVocabulary_def
    by (rule sorted_list_of_set_eqI) (auto simp: spec_tokens_def s)
  from code spec show ?thesis by simp
qed

lemma vocabulary_trimmed:
  assumes "\<forall>v\<in>set (cells f). v = Atom ANone \<or> (\<exists>s. v = Atom (AStr s))
             \<or> (\<exists>ts. v = PList ts \<and> (\<forall>t\<in>set ts. trimmed (str_atom t)))"
  shows "\<forall>t\<in>set (update_tag_completer w (Some f)). trimmed t"
proof
  fix t assume "t \<in> set (update_tag_completer w (Some f))"
  then obtain v where v: "v \<in> set (cells f)" and t: "t \<in> normalized_tags w v"
    by (auto simp: set_vocabulary)
  from assms v have "v = Atom ANone \<or> (\<exists>s. v = Atom (AStr s))
      \<or> (\<exists>ts. v = PList ts \<and> (\<forall>t\<in>set ts. trimmed (str_atom t)))" by blast
  then show "trimmed t"
    using t normalized_tags_str_trimmed [of w]
    by (auto simp: normalized_tags_None normalized_tags_list)
qed

text \<open>
  C3, as the code has it. Every token of a string-valued cell is non-empty and has no
  leading or trailing whitespace (whitespace-only pieces are dropped); a \<open>None\<close> cell
  has no token; the vocabulary has no duplicates. A list-valued cell contributes the
  string of each element as it is, neither stripped nor filtered, so the vocabulary of
  a catalog is trimmed whenever the strings of its list elements are.
\<close>

theorem normalized_tokens_trimmed:
  "(\<forall>t\<in>normalized_tags w (Atom (AStr s)). trimmed t)
   \<and> normalized_tags w (Atom ANone) = {}
   \<and> normalized_tags w (PList ts) = str_atom ` set ts
   \<and> distinct (update_tag_completer w (Some f))
   \<and> ((\<forall>v\<in>set (cells f). v = Atom ANone \<or> (\<exists>s. v = Atom (AStr s))
             \<or> (\<exists>ts. v = PList ts \<and> (\<forall>t\<in>set ts. trimmed (str_atom t))))
        \<longrightarrow> (\<forall>t\<in>set (update_tag_completer w (Some f)). trimmed t))"
  using normalized_tags_str_trimmed [of w s] normalized_tags_None [of w]
    normalized_tags_list [of w ts] distinct_vocabulary [of w "Some f"]
    vocabulary_trimmed [of f w]
  by blast

lemma demo_rows_vocabulary:
  "update_tag_completer cjk_alnum (Some (WithTags demo_rows))
     = [[19979, 39277], [23478, 24120], [36771]]"
proof -
  have a: "cjk_alnum 36771" "cjk_alnum 19979" "cjk_alnum 39277" "\<not> cjk_alnum 44"
    by (simp_all add: cjk_alnum_def)
  show ?thesis
    unfolding vocabulary_set_union
    by (rule sorted_list_of_set_eqI)
       (auto simp: demo_rows_def demo_normalized [OF a] normalized_tags_list
          normalized_tags_None)
qed

theorem normalized_tokens_trimmed_witness:
  "list_all trimmed (update_tag_completer cjk_alnum (Some (WithTags demo_rows)))
   \<and> update_tag_completer cjk_alnum (Some (WithTags demo_rows))
       = [[19979, 39277], [23478, 24120], [36771]]
   \<and> trimmed [36771] \<and> trimmed [19979, 39277] \<and> trimmed [23478, 24120]
   \<and> normalized_tags cjk_alnum (Atom (AStr [36771, 44, 19979, 39277]))
       = {[36771], [19979, 39277]}"
proof -
  have tr: "trimmed [36771]" "trimmed [19979, 39277]" "trimmed [23478, 24120]"
    by (simp_all add: trimmed_def isspace_def)
  have a: "cjk_alnum 36771" "cjk_alnum 19979" "cjk_alnum 39277" "\<not> cjk_alnum 44"
    by (simp_all add: cjk_alnum_def)
  have h: "\<forall>v\<in>set (cells (WithTags demo_rows)). v = Atom ANone \<or> (\<exists>s. v = Atom (AStr s))
             \<or> (\<exists>ts. v = PList ts \<and> (\<forall>t\<in>set ts. trimmed (str_atom t)))"
    by (simp add: demo_rows_def tr)
  from normalized_tokens_trimmed
         [of cjk_alnum "[36771, 44, 19979, 39277]" "[]" "WithTags demo_rows"] h
  have "\<forall>t\<in>set (update_tag_completer cjk_alnum (Some (WithTags demo_rows))). trimmed t"
    by blast
  then show ?thesis
    by (simp add: list_all_iff demo_rows_vocabulary tr demo_normalized [OF a])
qed

text \<open>
  C3 as stated fails for a sequence-valued cell: the list \<open>[" a", ""]\<close> puts the
  empty string and a token with a leading space into the vocabulary.
\<close>

theorem list_tokens_untrimmed_counterexample:
  "update_tag_completer cjk_alnum (Some (WithTags [(PList [AStr [32, 97], AStr []], 0 :: nat)]))
     = [[], [32, 97]]
   \<and> normalized_tags cjk_alnum (PList [AStr [32, 97], AStr []]) = {[32, 97], []}
   \<and> isspace 32 \<and> \<not> trimmed [32, 97] \<and> \<not> trimmed []"
proof -
  have v: "update_tag_completer cjk_alnum
             (Some (WithTags [(PList [AStr [32, 97], AStr []], 0 :: nat)])) = [[], [32, 97]]"
    unfolding vocabulary_set_union
    by (rule sorted_list_of_set_eqI) (auto simp: normalized_tags_list)
  have "isspace 32" by (simp add: isspace_def)
  then show ?thesis using v by (simp add: normalized_tags_list trimmed_def)
qed

text \<open>
  C6 at the failing input. A record without a \<open>tags\<close> key, in a catalog where another
  record has one, has the float \<open>nan\<close> in its cell: the loop skips only \<open>None\<close>, so
  the vocabulary gains the token \<open>"nan"\<close>. The same catalog with \<open>None\<close> in the
  cell yields the other record's tag alone.
\<close>

theorem absent_tags_cell_adds_nan_token:
  "update_tag_completer w (Some (WithTags [(Atom ANaN, r1), (PList [AStr [36771]], r2)]))
     = [[110, 97, 110], [36771]]
   \<and> update_tag_completer w (Some (WithTags [(Atom ANone, r1), (PList [AStr [36771]], r2)]))
     = [[36771]]"
proof -
  have a: "update_tag_completer w (Some (WithTags [(Atom ANaN, r1), (PList [AStr [36771]], r2)]))
     = [[110, 97, 110], [36771]]"
    unfolding vocabulary_set_union
    by (rule sorted_list_of_set_eqI) (auto simp: normalized_tags_list normalized_tags_def)
  have b: "update_tag_completer w (Some (WithTags [(Atom ANone, r1), (PList [AStr [36771]], r2)]))
     = [[36771]]"
    unfolding vocabulary_set_union
    by (rule sorted_list_of_set_eqI) (auto simp: normalized_tags_list normalized_tags_def)
  from a b show ?thesis by simp
qed

lemma has_tag_raises: "contains tag v = Inl x \<Longrightarrow> \<not> has_tag tag v"
  by (simp add: has_tag_def)

text \<open>
  C10, as the code has it. On a catalog with a \<open>tags\<close> column \<open>search_by_tag\<close>
  returns a result whatever the cells hold: a cell on which the membership test raises
  (\<open>None\<close>, a number) is a non-match. In the vocabulary a cell that is neither
  \<open>None\<close>, nor a string, nor iterable contributes the single token \<open>str(item)\<close>;
  \<open>None\<close> contributes nothing.
\<close>

theorem search_total_scalar_token:
  "search_by_tag run e tag (Some (WithTags rows))
       = Inr (WithTags (filter (\<lambda>r. has_tag tag (fst r)) rows))
   \<and> (\<forall>v x. contains tag v = Inl x \<longrightarrow> \<not> has_tag tag v)
   \<and> contains tag (Atom ANone) = Inl TypeError
   \<and> contains tag (Atom (AInt i)) = Inl TypeError
   \<and> contains tag (Atom ANaN) = Inl TypeError
   \<and> (a \<noteq> ANone \<and> \<not> is_str a \<longrightarrow> normalized_tags w (Atom a) = {str_atom a})
   \<and> normalized_tags w (Atom ANone) = {}"
proof -
  have sc: "a \<noteq> ANone \<and> \<not> is_str a \<longrightarrow> normalized_tags w (Atom a) = {str_atom a}"
    by (cases a) (simp_all add: normalized_tags_def)
  show ?thesis
    using search_by_tag_WithTags [of run e tag rows] has_tag_raises [of tag] sc
    by (simp add: normalized_tags_None)
qed

theorem search_total_scalar_token_witness:
  "search_by_tag no_run empty_env [53]
       (Some (WithTags [(Atom (AInt 5), 0), (Atom ANone, 1), (Atom ANaN, 2), (PList [AStr [53]], 3)]))
     = Inr (WithTags [(PList [AStr [53]], 3)])
   \<and> contains [53] (Atom (AInt 5)) = Inl TypeError \<and> \<not> has_tag [53] (Atom (AInt 5))
   \<and> AInt 5 \<noteq> ANone \<and> \<not> is_str (AInt 5)
   \<and> normalized_tags cjk_alnum (Atom (AInt 5)) = {[53]}
   \<and> normalized_tags cjk_alnum (Atom (AInt (- 120))) = {[45, 49, 50, 48]}"
  using search_total_scalar_token [of no_run empty_env "[53]"
      "[(Atom (AInt 5), 0), (Atom ANone, 1), (Atom ANaN, 2), (PList [AStr [53]], 3)]" 5 "AInt 5" cjk_alnum]
    search_total_scalar_token [of no_run empty_env "[53]" "[]" 5 "AInt (- 120)" cjk_alnum]
  by (simp add: has_tag_def str_int_def digits.simps)

text \<open>
  C10 as stated fails at \<open>None\<close>, which is neither a string nor iterable: it is
  skipped, and the token \<open>"None"\<close> is not added.
\<close>

theorem none_cell_adds_no_token_counterexample:
  "normalized_tags cjk_alnum (Atom ANone) = {}
   \<and> str_atom ANone = [78, 111, 110, 101]
   \<and> update_tag_completer cjk_alnum (Some (WithTags [(Atom ANone, 0 :: nat)])) = []"
  by (simp add: normalized_tags_None vocabulary_set_union)

section \<open>The suggestion popup, the resource lookup and the loader\<close>

lemma show_tag_popup_eq:
  "show_tag_popup lower tag_list q
     = filter (\<lambda>t. strip (or_empty q) = [] \<or> sublist (lower (strip (or_empty q))) (lower t))
         tag_list"
  by (simp add: show_tag_popup_def Let_def substring_iff_sublist)

text \<open>
  C4, as the code has it. The popup filter keeps, in vocabulary order, every entry
  whose lower-case form contains the lower-case form of the stripped query, and every
  entry when the stripped query is empty: there is no cap on the number of entries.
  So the empty query (or \<open>None\<close>, or only whitespace) returns the whole vocabulary,
  and a query that is not blank and occurs in no entry returns the empty list.
\<close>

theorem show_tag_popup_filter:
  "show_tag_popup lower tag_list q
       = filter (\<lambda>t. strip (or_empty q) = [] \<or> sublist (lower (strip (or_empty q))) (lower t))
           tag_list
   \<and> subseq (show_tag_popup lower tag_list q) tag_list
   \<and> (strip (or_empty q) = [] \<longrightarrow> show_tag_popup lower tag_list q = tag_list)
   \<and> show_tag_popup lower tag_list (Some []) = tag_list
   \<and> show_tag_popup lower tag_list None = tag_list
   \<and> (strip (or_empty q) \<noteq> []
        \<and> (\<forall>t\<in>set tag_list. \<not> sublist (lower (strip (or_empty q))) (lower t))
       \<longrightarrow> show_tag_popup lower tag_list q = [])"
proof -
  have e: "strip [] = []" by (simp add: strip_def)
  show ?thesis
    unfolding show_tag_popup_eq
    by (auto simp: or_empty_def e filter_empty_conv)
qed

theorem show_tag_popup_filter_witness:
  "show_tag_popup ascii_lower [[65, 98], [97], [99]] (Some [32, 65, 32]) = [[65, 98], [97]]
   \<and> show_tag_popup ascii_lower [[65, 98], [97], [99]] (Some [32, 9]) = [[65, 98], [97], [99]]
   \<and> strip (or_empty (Some [32, 9])) = []
   \<and> show_tag_popup ascii_lower [[65, 98], [97], [99]] (Some [120, 121, 122]) = []
   \<and> strip (or_empty (Some [120, 121, 122])) = [120, 121, 122]"
proof -
  have s1: "strip (or_empty (Some [32, 9])) = []"
    and s2: "strip (or_empty (Some [120, 121, 122])) = [120, 121, 122]"
    and s3: "strip (or_empty (Some [32, 65, 32])) = [65]"
    by (simp_all add: strip_def or_empty_def isspace_def)
  have n: "\<forall>t\<in>set [[65, 98], [97], [99]].
             \<not> sublist (ascii_lower (strip (or_empty (Some [120, 121, 122])))) (ascii_lower t)"
    by (simp add: s2 ascii_lower_def substring_iff_sublist [symmetric])
  have a: "show_tag_popup ascii_lower [[65, 98], [97], [99]] (Some [32, 65, 32]) = [[65, 98], [97]]"
    by (simp add: show_tag_popup_eq s3 ascii_lower_def substring_iff_sublist [symmetric])
  from show_tag_popup_filter [of ascii_lower "[[65, 98], [97], [99]]" "Some [32, 9]"]
    show_tag_popup_filter [of ascii_lower "[[65, 98], [97], [99]]" "Some [120, 121, 122]"]
    s1 s2 n a
  show ?thesis by simp
qed

text \<open>
  C4 as stated fails twice: on a vocabulary of eleven entries the empty query returns
  all eleven, not the first ten; and the query \<open>" "\<close>, contained in no entry of the
  vocabulary \<open>["a"]\<close>, returns that entry, because the query is stripped first.
\<close>

theorem show_tag_popup_uncapped_counterexample:
  "show_tag_popup ascii_lower
       [[97], [98], [99], [100], [101], [102], [103], [104], [105], [106], [107]] (Some [])
     = [[97], [98], [99], [100], [101], [102], [103], [104], [105], [106], [107]]
   \<and> take 10 [[97], [98], [99], [100], [101], [102], [103], [104], [105], [106], [107 :: nat]]
     = [[97], [98], [99], [100], [101], [102], [103], [104], [105], [106]]
   \<and> show_tag_popup ascii_lower [[97]] (Some [32]) = [[97]]
   \<and> \<not> sublist [32] [97 :: nat]"
  by (simp add: show_tag_popup_eq or_empty_def strip_def isspace_def
      substring_iff_sublist [symmetric])


lemma first_existing_find:
  "first_existing e name ds
     = map_option (\<lambda>d. path_join d name) (List.find (usable_dir e name) ds)"
  by (induction ds) (simp_all add: usable_dir_def)

lemma find_resource_Some_iff:
  "find_resource e name = Some p \<longleftrightarrow>
     (\<exists>i<length (candidates e).
        usable_dir e name (candidates e ! i) \<and> p = path_join (candidates e ! i) name
        \<and> (\<forall>j<i. \<not> usable_dir e name (candidates e ! j)))"
  unfolding find_resource_def first_existing_find
  by (auto simp: find_Some_iff)

lemma find_resource_None_iff:
  "find_resource e name = None \<longleftrightarrow> (\<forall>d\<in>set (candidates e). \<not> usable_dir e name d)"
  unfolding find_resource_def first_existing_find
  by (auto simp: find_None_iff)

lemma path_join_nonempty: "d \<noteq> [] \<Longrightarrow> path_join d name \<noteq> []"
  by (auto simp: path_join_def isabs_def split: list.splits)

lemma find_resource_nonempty: "find_resource e name = Some p \<Longrightarrow> p \<noteq> []"
  by (auto simp: find_resource_Some_iff usable_dir_def path_join_nonempty)

text \<open>
  C7. \<open>_find_resource\<close> returns the path under the first candidate directory, in the
  order of the list, that is non-empty and holds the file, and \<open>None\<close> when no
  candidate does. The list is: the bundle's extraction directory and the executable's
  directory (both only when frozen), then the script's directory, then the current
  working directory.
\<close>

theorem find_resource_first_match:
  "(find_resource e name = Some p \<longleftrightarrow>
     (\<exists>i<length (candidates e).
        usable_dir e name (candidates e ! i) \<and> p = path_join (candidates e ! i) name
        \<and> (\<forall>j<i. \<not> usable_dir e name (candidates e ! j))))
   \<and> (find_resource e name = None \<longleftrightarrow> (\<forall>d\<in>set (candidates e). \<not> usable_dir e name d))
   \<and> (frozen e \<and> meipass e = Some m \<and> m \<noteq> [] \<longrightarrow>
        candidates e = m # executable_dir e # truthy_dir (file_dir e) @ [cwd e])
   \<and> (frozen e \<and> (meipass e = None \<or> meipass e = Some []) \<longrightarrow>
        candidates e = executable_dir e # truthy_dir (file_dir e) @ [cwd e])
   \<and> (\<not> frozen e \<longrightarrow> candidates e = truthy_dir (file_dir e) @ [cwd e])"
  using find_resource_Some_iff [of e name p] find_resource_None_iff [of e name]
  by (auto simp: candidates_def truthy_dir_def)

lemma bundled_usable:
  "\<not> usable_dir bundled_env ''dishes.txt'' ''/tmp/_MEI42''"
  "usable_dir bundled_env ''dishes.txt'' ''/opt/queshi''"
  "usable_dir bundled_env ''dishes.txt'' ''/home/u''"
  by (simp_all add: usable_dir_def path_exists_def resolve_def path_join_def isabs_def
      bundled_env_def)

theorem find_resource_first_match_witness:
  "find_resource bundled_env ''dishes.txt'' = Some ''/opt/queshi/dishes.txt''
   \<and> candidates bundled_env = [''/tmp/_MEI42'', ''/opt/queshi'', ''/tmp/_MEI42'', ''/home/u'']
   \<and> \<not> usable_dir bundled_env ''dishes.txt'' ''/tmp/_MEI42''
   \<and> usable_dir bundled_env ''dishes.txt'' ''/opt/queshi''
   \<and> usable_dir bundled_env ''dishes.txt'' ''/home/u''
   \<and> find_resource empty_env ''dishes.txt'' = None
   \<and> candidates empty_env = [''/app'', ''/home/u'']"
proof -
  have c: "candidates bundled_env = [''/tmp/_MEI42'', ''/opt/queshi'', ''/tmp/_MEI42'', ''/home/u'']"
    using find_resource_first_match [of bundled_env "''dishes.txt''" "''x''" "''/tmp/_MEI42''"]
    by (simp add: bundled_env_def truthy_dir_def)
  have i: "\<exists>i<length (candidates bundled_env).
        usable_dir bundled_env ''dishes.txt'' (candidates bundled_env ! i)
        \<and> ''/opt/queshi/dishes.txt'' = path_join (candidates bundled_env ! i) ''dishes.txt''
        \<and> (\<forall>j<i. \<not> usable_dir bundled_env ''dishes.txt'' (candidates bundled_env ! j))"
    unfolding c
    by (rule exI [of _ 1]) (simp add: bundled_usable path_join_def isabs_def)
  have f: "find_resource bundled_env ''dishes.txt'' = Some ''/opt/queshi/dishes.txt''"
    using find_resource_first_match
            [of bundled_env "''dishes.txt''" "''/opt/queshi/dishes.txt''" "''/tmp/_MEI42''"] i
    by blast
  have ce: "candidates empty_env = [''/app'', ''/home/u'']"
    using find_resource_first_match [of empty_env "''dishes.txt''" "''x''" "''x''"]
    by (simp add: empty_env_def truthy_dir_def)
  have "\<forall>d\<in>set (candidates empty_env). \<not> usable_dir empty_env ''dishes.txt'' d"
    by (simp add: ce usable_dir_def path_exists_def empty_env_def)
  then have n: "find_resource empty_env ''dishes.txt'' = None"
    using find_resource_first_match [of empty_env "''dishes.txt''" "''x''" "''x''"] by blast
  from f c n ce show ?thesis by (simp add: bundled_usable)
qed

lemma isabs_join_cwd:
  "isabs c \<Longrightarrow> \<not> isabs name \<Longrightarrow> isabs (path_join c name)"
  by (auto simp: path_join_def isabs_def split: list.splits)

lemma load_dishes_fallback_absent:
  assumes ab: "isabs (cwd e)"
    and no: "\<forall>d\<in>set (candidates e). \<not> path_exists e (path_join d ''dishes.txt'')"
    and fd: "file_dir e = Some base_dir"
  shows "\<not> path_exists e (path_join base_dir ''dishes.txt'')"
proof (cases "base_dir = []")
  case False
  with fd have "base_dir \<in> set (candidates e)" by (simp add: candidates_def truthy_dir_def)
  with no show ?thesis by blast
next
  case True
  have na: "\<not> isabs ''dishes.txt''" by (simp add: isabs_def)
  have "cwd e \<in> set (candidates e)" by (simp add: candidates_def)
  with no have c: "\<not> path_exists e (path_join (cwd e) ''dishes.txt'')" by blast
  have abs: "isabs (path_join (cwd e) ''dishes.txt'')" using ab na by (rule isabs_join_cwd)
  then have ne: "path_join (cwd e) ''dishes.txt'' \<noteq> []" by (auto simp: isabs_def)
  from c ne abs have "fs e (path_join (cwd e) ''dishes.txt'') = None"
    by (simp add: path_exists_def resolve_def)
  moreover have "path_join base_dir ''dishes.txt'' = ''dishes.txt''"
    using True na by (simp add: path_join_def)
  ultimately show ?thesis using na by (simp add: path_exists_def resolve_def)
qed

text \<open>
  C5. When the file \<open>dishes.txt\<close> exists under none of the candidate directories,
  \<open>load_dishes\<close> returns the empty frame and raises nothing. The working directory
  is an absolute path, as \<open>os.getcwd()\<close> returns it.
\<close>

theorem load_dishes_missing_file:
  assumes "isabs (cwd e)"
    and "\<forall>d\<in>set (candidates e). \<not> path_exists e (path_join d ''dishes.txt'')"
  shows "load_dishes run e = Inr (NoTags [])"
proof -
  from assms(2) have "\<forall>d\<in>set (candidates e). \<not> usable_dir e ''dishes.txt'' d"
    by (simp add: usable_dir_def)
  then have n: "find_resource e ''dishes.txt'' = None" by (simp add: find_resource_None_iff)
  show ?thesis
  proof (cases "file_dir e")
    case None
    with n show ?thesis by (simp add: load_dishes_def)
  next
    case (Some base_dir)
    with load_dishes_fallback_absent [OF assms Some] n show ?thesis
      by (simp add: load_dishes_def)
  qed
qed

theorem load_dishes_missing_file_witness:
  "isabs (cwd empty_env)
   \<and> list_all (\<lambda>d. \<not> path_exists empty_env (path_join d ''dishes.txt'')) (candidates empty_env)
   \<and> load_dishes no_run empty_env = Inr (NoTags [])"
proof -
  have a: "isabs (cwd empty_env)" by (simp add: empty_env_def isabs_def)
  have b: "\<forall>d\<in>set (candidates empty_env). \<not> path_exists empty_env (path_join d ''dishes.txt'')"
    by (simp add: path_exists_def empty_env_def)
  from load_dishes_missing_file [OF a b, of no_run] a b show ?thesis
    by (simp add: list_all_iff)
qed


lemma load_dishes_found:
  "find_resource e ''dishes.txt'' = Some p \<Longrightarrow> load_dishes run e = read_and_exec run e p"
  by (frule find_resource_nonempty) (simp add: load_dishes_def split: list.splits)

text \<open>
  C8, as the code has it. When the file is found, \<open>load_dishes\<close> is all or nothing:
  an exception of reading the file or of executing its text is passed to the caller
  as it is, with no frame returned; a text that binds no \<open>dishes\<close> gives the empty
  frame; otherwise the frame of the bound value is returned.
\<close>

theorem load_dishes_propagates:
  assumes "find_resource e ''dishes.txt'' = Some p"
  shows "(fs e (resolve e p) = Some (Inr content) \<and> run content = Inl x
            \<longrightarrow> load_dishes run e = Inl x)
       \<and> (fs e (resolve e p) = Some (Inl x) \<longrightarrow> load_dishes run e = Inl x)
       \<and> (fs e (resolve e p) = Some (Inr content) \<and> run content = Inr None
            \<longrightarrow> load_dishes run e = Inr (NoTags []))
       \<and> (fs e (resolve e p) = Some (Inr content) \<and> run content = Inr (Some f)
            \<longrightarrow> load_dishes run e = Inr f)"
  by (simp add: load_dishes_found [OF assms] read_and_exec_def)

lemma broken_found: "find_resource broken_env ''dishes.txt'' = Some ''/app/dishes.txt''"
  by (simp add: find_resource_def candidates_def truthy_dir_def broken_env_def
      path_exists_def resolve_def path_join_def isabs_def)

lemma demo_found: "find_resource demo_env ''dishes.txt'' = Some ''/app/dishes.txt''"
  by (simp add: find_resource_def candidates_def truthy_dir_def demo_env_def
      path_exists_def resolve_def path_join_def isabs_def)

lemma broken_file:
  "fs broken_env (resolve broken_env ''/app/dishes.txt'') = Some (Inr ''dishes = ['')"
  by (simp add: broken_env_def resolve_def isabs_def)

lemma demo_file: "fs demo_env (resolve demo_env ''/app/dishes.txt'') = Some (Inr demo_text)"
  by (simp add: demo_env_def resolve_def isabs_def)

lemma broken_load: "load_dishes no_run broken_env = Inl SyntaxError"
  by (simp add: load_dishes_found [OF broken_found] read_and_exec_def broken_file no_run_def)

lemma demo_load: "load_dishes run_demo demo_env = Inr (WithTags demo_rows)"
  by (simp add: load_dishes_found [OF demo_found] read_and_exec_def demo_file run_demo_def)

theorem load_dishes_propagates_witness:
  "find_resource broken_env ''dishes.txt'' = Some ''/app/dishes.txt''
   \<and> fs broken_env (resolve broken_env ''/app/dishes.txt'') = Some (Inr ''dishes = ['')
   \<and> no_run ''dishes = ['' = Inl SyntaxError
   \<and> load_dishes no_run broken_env = Inl SyntaxError
   \<and> find_resource demo_env ''dishes.txt'' = Some ''/app/dishes.txt''
   \<and> load_dishes run_demo demo_env = Inr (WithTags demo_rows)"
proof -
  note a = broken_file
  have b: "no_run ''dishes = ['' = Inl SyntaxError" by (simp add: no_run_def)
  note c = demo_file
  have d: "run_demo demo_text = Inr (Some (WithTags demo_rows))" by (simp add: run_demo_def)
  from load_dishes_propagates [OF broken_found, of "''dishes = [''" no_run SyntaxError] a b
  have 1: "load_dishes no_run broken_env = Inl SyntaxError" by blast
  from load_dishes_propagates [OF demo_found, of demo_text run_demo _ "WithTags demo_rows"] c d
  have 2: "load_dishes run_demo demo_env = Inr (WithTags demo_rows)" by blast
  from 1 2 a b show ?thesis by (simp add: broken_found demo_found)
qed

text \<open>
  C8 as stated fails: on a data file that does not parse, the error is the parser's
  own \<open>SyntaxError\<close>, not a \<open>LoadError\<close> carrying the path and the cause.
\<close>

theorem load_error_counterexample:
  "find_resource broken_env ''dishes.txt'' = Some ''/app/dishes.txt''
   \<and> load_dishes no_run broken_env = Inl SyntaxError
   \<and> load_dishes no_run broken_env \<noteq> Inl (LoadError ''/app/dishes.txt'' SyntaxError)"
  by (simp add: broken_found broken_load)

text \<open>
  C9. Called without a catalog, \<open>search_by_tag\<close> loads the default catalog with
  \<open>load_dishes\<close> and searches it: a loaded frame with a \<open>tags\<close> column gives the
  matching rows, and a failing load passes its exception on.
\<close>

theorem search_by_tag_default_catalog:
  "search_by_tag run e tag None
       = (case load_dishes run e of
            Inl x \<Rightarrow> Inl x
          | Inr f \<Rightarrow> search_by_tag run e tag (Some f))
   \<and> (load_dishes run e = Inr (WithTags rows) \<longrightarrow>
        search_by_tag run e tag None
          = Inr (WithTags (filter (\<lambda>r. has_tag tag (fst r)) rows)))
   \<and> (load_dishes run e = Inl x \<longrightarrow> search_by_tag run e tag None = Inl x)"
proof -
  have a: "search_by_tag run e tag None
       = (case load_dishes run e of
            Inl x \<Rightarrow> Inl x
          | Inr f \<Rightarrow> search_by_tag run e tag (Some f))"
    by (simp add: search_by_tag_def split: sum.splits)
  show ?thesis
    unfolding a using search_by_tag_WithTags [of run e tag rows] by simp
qed

theorem search_by_tag_default_catalog_witness:
  "load_dishes run_demo demo_env = Inr (WithTags demo_rows)
   \<and> search_by_tag run_demo demo_env [36771] None
       = Inr (WithTags [(PList [AStr [36771], AStr [19979, 39277]], 0),
                        (Atom (AStr [36771, 44, 19979, 39277]), 3)])
   \<and> load_dishes no_run broken_env = Inl SyntaxError
   \<and> search_by_tag no_run broken_env [36771] None = Inl SyntaxError"
proof -
  note l = demo_load
  note b = broken_load
  from search_by_tag_default_catalog [of run_demo demo_env "[36771]" demo_rows] l
  have "search_by_tag run_demo demo_env [36771] None
          = Inr (WithTags (filter (\<lambda>r. has_tag [36771] (fst r)) demo_rows))" by blast
  moreover from search_by_tag_default_catalog [of no_run broken_env "[36771]" "[]" SyntaxError] b
  have "search_by_tag no_run broken_env [36771] None = Inl SyntaxError" by blast
  ultimately show ?thesis using l b
    by (simp add: demo_rows_def has_tag_def)
qed

end
